theory Spec2Isabelle
  imports Main "HOL-Library.Char_ord" "HOL-Library.List_Lexorder"
begin

section \<open>The runtime policy of the router (runtimePolicy.cpp)\<close>

text \<open>
  The development embeds \<^verbatim>\<open>router::RuntimePolicy\<close>: its life cycle (\<open>build\<close>,
  \<open>processEvent\<close>), the two subscriber callbacks installed by \<open>subscribeToOutput\<close> and
  \<open>listenAllTrace\<close>, and \<open>getData\<close>, which renders the latched output and the buffered
  traces. Strings are byte strings (\<open>char list\<close>); the members of the class are the
  fields of a record that every operation takes and returns.
\<close>

subsection \<open>The two regular expressions of the trace subscriber\<close>

text \<open>
  The patterns are values of a small syntax that covers what the two patterns of
  \<open>listenAllTrace\<close> use: an escaped literal, the negated class \<^verbatim>\<open>[^\]]\<close>, the dot,
  a greedy \<^verbatim>\<open>+\<close> on a one-character atom, a capture group, the assertion \<^verbatim>\<open>^\<close>
  and concatenation. The dot of the ECMAScript grammar (the default of \<^verbatim>\<open>std::regex\<close>)
  matches every character but the line terminators LF and CR.
\<close>

datatype atom = Lit char | NotChar char | AnyChar

datatype rx = Atom atom | Str string | Plus atom | Bol | Group rx | Cat rx rx

definition is_line_terminator :: "char \<Rightarrow> bool" where
  "is_line_terminator c = (c = CHR 0x0A \<or> c = CHR 0x0D)"

fun step :: "atom \<Rightarrow> char \<Rightarrow> bool" where
  "step (Lit c) x = (x = c)"
| "step (NotChar c) x = (x \<noteq> c)"
| "step AnyChar x = (\<not> is_line_terminator x)"

text \<open>
  A matcher configuration is: whether the position is the beginning of the searched
  string, the text not yet consumed, and the groups closed so far. \<open>run\<close> returns the
  configurations in which a pattern can end, in the order a backtracking matcher
  tries them (a greedy \<^verbatim>\<open>+\<close> tries the longest run first); the head of the list is
  the match that \<^verbatim>\<open>std::regex\<close> reports. The groups of the two patterns are not
  nested, so a group is recorded when it closes.
\<close>

type_synonym config = "bool \<times> string \<times> string list"

fun run :: "rx \<Rightarrow> config \<Rightarrow> config list" where
  "run (Atom a) (b, s, g) =
     (case s of [] \<Rightarrow> [] | x # xs \<Rightarrow> if step a x then [(False, xs, g)] else [])"
| "run (Str l) (b, s, g) =
     (if take (length l) s = l then [(b \<and> l = [], drop (length l) s, g)] else [])"
| "run (Plus a) (b, s, g) =
     map (\<lambda>k. (False, drop k s, g)) (rev [1 ..< Suc (length (takeWhile (step a) s))])"
| "run Bol (b, s, g) = (if b then [(b, s, g)] else [])"
| "run (Group r) (b, s, g) =
     map (\<lambda>(b', s', g'). (b', s', g' @ [take (length s - length s') s])) (run r (b, s, g))"
| "run (Cat r1 r2) c = concat (map (run r2) (run r1 c))"

definition first_match :: "rx \<Rightarrow> config \<Rightarrow> config option" where
  "first_match r c = (case run r c of [] \<Rightarrow> None | c' # _ \<Rightarrow> Some c')"

text \<open>
  \<^verbatim>\<open>std::regex_search\<close> tries every start position from the left, the end of the
  string included, and stops at the first position with a match. The result lists
  \<^verbatim>\<open>match[0]\<close> (the matched text) and then the groups.
\<close>

type_synonym smatch = "string list"

fun regex_search_from :: "rx \<Rightarrow> bool \<Rightarrow> string \<Rightarrow> smatch option" where
  "regex_search_from r b [] =
     (case first_match r (b, [], []) of
        None \<Rightarrow> None
      | Some (b', s', g) \<Rightarrow> Some ([] # g))"
| "regex_search_from r b (x # xs) =
     (case first_match r (b, x # xs, []) of
        None \<Rightarrow> regex_search_from r False xs
      | Some (b', s', g) \<Rightarrow> Some (take (length (x # xs) - length s') (x # xs) # g))"

definition regex_search :: "string \<Rightarrow> rx \<Rightarrow> smatch option" where
  "regex_search s r = regex_search_from r True s"

text \<open>\<^verbatim>\<open>match[n].str()\<close>: the text of a group, empty for a group that is not there.\<close>

definition sub_str :: "smatch \<Rightarrow> nat \<Rightarrow> string" where
  "sub_str m n = (if n < length m then m ! n else [])"

text \<open>
  \<^verbatim>\<open>R"(\[([^\]]+)\] \[condition\]:(.+))"\<close> and \<^verbatim>\<open>R"(^\[([^\]]+)\] (.+))"\<close>: only the
  second pattern starts with \<^verbatim>\<open>^\<close>.
\<close>

definition opPatternTrace :: rx where
  "opPatternTrace =
     Cat (Atom (Lit CHR ''[''))
    (Cat (Group (Plus (NotChar CHR '']'')))
    (Cat (Atom (Lit CHR '']''))
    (Cat (Str '' '')
    (Cat (Atom (Lit CHR ''[''))
    (Cat (Str ''condition'')
    (Cat (Atom (Lit CHR '']''))
    (Cat (Str '':'')
         (Group (Plus AnyChar)))))))))"

definition opPatternTraceVerbose :: rx where
  "opPatternTraceVerbose =
     Cat Bol
    (Cat (Atom (Lit CHR ''[''))
    (Cat (Group (Plus (NotChar CHR '']'')))
    (Cat (Atom (Lit CHR '']''))
    (Cat (Str '' '')
         (Group (Plus AnyChar))))))"

subsection \<open>The state of a runtime policy\<close>

text \<open>
  The controller, the builder and the reactive pipeline are collaborators whose code is
  elsewhere. A controller is represented by what the policy does to it: the
  environment it was made from, which of the two subscriptions were made, and the
  events handed to \<open>ingestEvent\<close>.
\<close>

record ('env, 'ev) Controller =
  pipeline :: 'env
  outputSubscribed :: bool
  allTraceSubscribed :: bool
  ingested :: "'ev list"

datatype Error = Error (message: string)

datatype Mutex = OutputMutex | TracerMutex

datatype LockEvent = Acquire Mutex | Release Mutex

datatype DebugMode = OUTPUT_ONLY | OUTPUT_AND_TRACES | OUTPUT_AND_TRACES_WITH_DETAILS

text \<open>
  \<open>m_lockLog\<close> is a ghost field: it records every \<^verbatim>\<open>std::lock_guard\<close> that an
  operation constructs (\<open>Acquire\<close>) and destroys (\<open>Release\<close>), in program order.
\<close>

record ('env, 'ev) RuntimePolicy =
  m_asset :: string
  m_environment :: "'env option"
  m_spController :: "('env, 'ev) Controller option"
  m_output :: string
  m_history :: "(string \<times> string) list"
  m_traceBuffer :: "string \<rightharpoonup> string list"
  m_lockLog :: "LockEvent list"

text \<open>A new instance: the policy name is set, every other member is empty.\<close>

definition newRuntimePolicy :: "string \<Rightarrow> ('env, 'ev) RuntimePolicy" where
  "newRuntimePolicy asset =
     \<lparr>m_asset = asset, m_environment = None, m_spController = None, m_output = [],
      m_history = [], m_traceBuffer = Map.empty, m_lockLog = []\<rparr>"

definition lock_guard :: "Mutex \<Rightarrow> ('env, 'ev) RuntimePolicy \<Rightarrow> ('env, 'ev) RuntimePolicy" where
  "lock_guard m s = s\<lparr>m_lockLog := m_lockLog s @ [Acquire m]\<rparr>"

definition unlock_guard :: "Mutex \<Rightarrow> ('env, 'ev) RuntimePolicy \<Rightarrow> ('env, 'ev) RuntimePolicy" where
  "unlock_guard m s = s\<lparr>m_lockLog := m_lockLog s @ [Release m]\<rparr>"

subsection \<open>The subscriber callbacks\<close>

text \<open>
  The callback of \<open>subscribeToOutput\<close>: the pretty-printed payload of the event and a
  line end replace \<open>m_output\<close>. The pretty-printer of events is a parameter.
\<close>

definition subscribeToOutput_onNext ::
  "('ev \<Rightarrow> string) \<Rightarrow> 'ev \<Rightarrow> ('env, 'ev) RuntimePolicy \<Rightarrow> ('env, 'ev) RuntimePolicy" where
  "subscribeToOutput_onNext prettyStr event s =
     (let s0 = lock_guard OutputMutex s;
          s1 = s0\<lparr>m_output := prettyStr event @ [CHR 0x0A]\<rparr>
      in unlock_guard OutputMutex s1)"

text \<open>
  The callback of \<open>listenAllTrace\<close>. The two searches are independent; \<^verbatim>\<open>operator[]\<close>
  of the trace buffer makes an empty bucket for a key that has none.
\<close>

definition listenAllTrace_onNext ::
  "string \<Rightarrow> ('env, 'ev) RuntimePolicy \<Rightarrow> ('env, 'ev) RuntimePolicy" where
  "listenAllTrace_onNext trace s =
     (let s0 = lock_guard TracerMutex s;
          s1 = (case regex_search trace opPatternTrace of
                  Some match \<Rightarrow> s0\<lparr>m_history := m_history s0 @ [(sub_str match 1, sub_str match 2)]\<rparr>
                | None \<Rightarrow> s0);
          s2 = (case regex_search trace opPatternTraceVerbose of
                  Some matchVerbose \<Rightarrow>
                    (let key = sub_str matchVerbose 1;
                         bucket = (case m_traceBuffer s1 key of None \<Rightarrow> [] | Some v \<Rightarrow> v)
                     in s1\<lparr>m_traceBuffer := (m_traceBuffer s1)(key \<mapsto> bucket @ [trace])\<rparr>)
                | None \<Rightarrow> s1)
      in unlock_guard TracerMutex s2)"

subsection \<open>Building the policy and feeding events\<close>

text \<open>
  What a collaborator can throw: an object of a class derived from \<^verbatim>\<open>std::exception\<close>,
  represented by the text that \<^verbatim>\<open>utils::getExceptionStack\<close> makes of it, or an object
  of any other type. A call of \<open>build\<close> either returns its result or is left by an
  exception that it does not catch.
\<close>

datatype thrown = StdException string | OtherException

datatype 'a outcome = Returned 'a | Escaped thrown

text \<open>
  The collaborators of \<open>build\<close>. The builder is the argument of \<open>build\<close>: it returns the
  environment of a policy or throws. The reactive back end makes the controller from
  the environment and takes the two subscriptions; each of the three calls may throw.
\<close>

type_synonym 'env Builder = "string \<Rightarrow> thrown + 'env"

record 'env rxbk =
  buildRxPipeline_throws :: "'env \<Rightarrow> thrown option"
  subscribe_throws :: "thrown option"
  listenOnAllTrace_throws :: "thrown option"

definition newController :: "'env \<Rightarrow> ('env, 'ev) Controller" where
  "newController env =
     \<lparr>pipeline = env, outputSubscribed = False, allTraceSubscribed = False, ingested = []\<rparr>"

text \<open>
  \<open>subscribeToOutput\<close> and \<open>listenAllTrace\<close> register a callback with the controller in
  \<open>m_spController\<close>; \<open>build\<close> calls them after it has stored the controller. \<open>Inl\<close> is
  the exception of the registration.
\<close>

definition subscribeToOutput ::
  "'env rxbk \<Rightarrow> ('env, 'ev) RuntimePolicy \<Rightarrow> thrown + ('env, 'ev) RuntimePolicy" where
  "subscribeToOutput rx s =
     (case subscribe_throws rx of
        Some e \<Rightarrow> Inl e
      | None \<Rightarrow> Inr (s\<lparr>m_spController := map_option (\<lambda>c. c\<lparr>outputSubscribed := True\<rparr>) (m_spController s)\<rparr>))"

definition listenAllTrace ::
  "'env rxbk \<Rightarrow> ('env, 'ev) RuntimePolicy \<Rightarrow> thrown + ('env, 'ev) RuntimePolicy" where
  "listenAllTrace rx s =
     (case listenOnAllTrace_throws rx of
        Some e \<Rightarrow> Inl e
      | None \<Rightarrow> Inr (s\<lparr>m_spController := map_option (\<lambda>c. c\<lparr>allTraceSubscribed := True\<rparr>) (m_spController s)\<rparr>))"

text \<open>The three messages, as \<^verbatim>\<open>fmt::format\<close> fills them.\<close>

definition already_built_msg :: "string \<Rightarrow> string" where
  "already_built_msg asset = ''Policy '' @ [CHR 0x27] @ asset @ [CHR 0x27] @ '' is already built''"

definition not_built_msg :: "string \<Rightarrow> string" where
  "not_built_msg asset = ''Policy '' @ [CHR 0x27] @ asset @ [CHR 0x27] @ '' is not built''"

definition build_error_msg :: "string \<Rightarrow> string \<Rightarrow> string" where
  "build_error_msg asset stack = ''Error building policy ['' @ asset @ '']: '' @ stack"

text \<open>
  The \<^verbatim>\<open>catch (std::exception& e)\<close> clause of \<open>build\<close>: an exception derived from
  \<^verbatim>\<open>std::exception\<close> becomes the returned error; anything else that was thrown leaves
  \<open>build\<close>. The clause assigns nothing: the instance is as the \<^verbatim>\<open>try\<close> block left it.
\<close>

definition build_catch ::
  "thrown \<Rightarrow> ('env, 'ev) RuntimePolicy \<Rightarrow> Error option outcome \<times> ('env, 'ev) RuntimePolicy" where
  "build_catch e s =
     (case e of
        StdException stack \<Rightarrow> (Returned (Some (Error (build_error_msg (m_asset s) stack))), s)
      | OtherException \<Rightarrow> (Escaped OtherException, s))"

text \<open>
  \<open>build\<close>: each statement of the \<^verbatim>\<open>try\<close> block changes the instance before the next
  one runs; what was assigned before an exception stays assigned.
\<close>

definition build ::
  "'env rxbk \<Rightarrow> 'env Builder \<Rightarrow> ('env, 'ev) RuntimePolicy
     \<Rightarrow> Error option outcome \<times> ('env, 'ev) RuntimePolicy" where
  "build rx builder s =
     (if m_spController s \<noteq> None
      then (Returned (Some (Error (already_built_msg (m_asset s)))), s)
      else
        (case builder (m_asset s) of
           Inl e \<Rightarrow> build_catch e s
         | Inr env \<Rightarrow>
             (let s1 = s\<lparr>m_environment := Some env\<rparr> in
              case buildRxPipeline_throws rx env of
                Some e \<Rightarrow> build_catch e s1
              | None \<Rightarrow>
                  (let s2 = s1\<lparr>m_spController := Some (newController env)\<rparr> in
                   case subscribeToOutput rx s2 of
                     Inl e \<Rightarrow> build_catch e s2
                   | Inr s3 \<Rightarrow>
                       (case listenAllTrace rx s3 of
                          Inl e \<Rightarrow> build_catch e s3
                        | Inr s4 \<Rightarrow> (Returned None, s4))))))"

definition processEvent ::
  "'ev \<Rightarrow> ('env, 'ev) RuntimePolicy \<Rightarrow> Error option \<times> ('env, 'ev) RuntimePolicy" where
  "processEvent event s =
     (case m_spController s of
        None \<Rightarrow> (Some (Error (not_built_msg (m_asset s))), s)
      | Some c \<Rightarrow> (None, s\<lparr>m_spController := Some (c\<lparr>ingested := ingested c @ [event]\<rparr>)\<rparr>))"

subsection \<open>Rendering\<close>

text \<open>
  Modelled from the spec: \<^verbatim>\<open>json::Json\<close>, the document class that \<open>getData\<close> fills, is
  not among the sources. The spec describes the trace document as an object in which
  \<open>trace["/" + asset]\<close> is set and a later write to the same path replaces an earlier
  one. The document is the list of its paths with their strings, in the order the
  paths were first set. What two different paths do to each other (one a prefix of
  the other) and what a path that is no JSON pointer does are outside this model.
\<close>

type_synonym Json = "(string \<times> string) list"

text \<open>
  Modelled from the spec: the document that \<^verbatim>\<open>json::Json {R"({})"}\<close> constructs, the
  object without members (\<open>trace = {}\<close> in the spec).
\<close>

definition Json_empty :: Json where
  "Json_empty = []"

text \<open>
  Modelled from the spec: \<^verbatim>\<open>json::Json::setString(value, path)\<close>, the spec's
  \<open>trace[path] = value\<close>: a path that is set again keeps its place and gets the new
  string.
\<close>

fun setString :: "string \<Rightarrow> string \<Rightarrow> Json \<Rightarrow> Json" where
  "setString v path [] = [(path, v)]"
| "setString v path ((k, w) # j) =
     (if k = path then (k, v) # j else (k, w) # setString v path j)"

text \<open>
  Modelled from the spec: the string that a document has at a path, if it has one;
  the properties of the document that \<open>getData\<close> renders are stated with it.
\<close>

definition getString :: "Json \<Rightarrow> string \<Rightarrow> string option" where
  "getString j path = map_of j path"

text \<open>
  Modelled from the spec: \<^verbatim>\<open>json::Json::prettyStr()\<close>. The spec gives \<^verbatim>\<open>{}\<close> as the
  rendering of the empty object and leaves the layout of an object with members
  open; that layout is the parameter \<open>members\<close>.
\<close>

definition prettyStr :: "(Json \<Rightarrow> string) \<Rightarrow> Json \<Rightarrow> string" where
  "prettyStr members j = (if j = [] then ''{}'' else members j)"

text \<open>
  \<^verbatim>\<open>std::set<std::string>::insert\<close>: the set is kept as the list of its elements in
  increasing order; a string that is already there is not inserted again. The order
  of \<^verbatim>\<open>std::string\<close> is the lexicographic order of the bytes.
\<close>

fun set_insert :: "string \<Rightarrow> string list \<Rightarrow> string list" where
  "set_insert x [] = [x]"
| "set_insert x (y # ys) =
     (if x = y then y # ys else if x < y then x # y # ys else y # set_insert x ys)"

text \<open>\<^verbatim>\<open>c_str()\<close> read back as a string ends at the first NUL.\<close>

definition c_str :: "string \<Rightarrow> string" where
  "c_str s = takeWhile (\<lambda>c. c \<noteq> CHR 0x00) s"

text \<open>
  One iteration of the loop of \<open>getData\<close> over \<open>m_history\<close>, on the trace document and
  the trace buffer. In the detailed mode an asset without a bucket is skipped; an
  asset with a bucket gets the concatenation of the bucket's distinct lines, and the
  bucket is emptied (it stays in the buffer).
\<close>

definition getData_step ::
  "DebugMode \<Rightarrow> string \<times> string \<Rightarrow> Json \<times> (string \<rightharpoonup> string list)
     \<Rightarrow> Json \<times> (string \<rightharpoonup> string list)" where
  "getData_step debugMode entry tb =
     (case entry of (asset, condition) \<Rightarrow>
      case tb of (trace, buffer) \<Rightarrow>
        if debugMode = OUTPUT_AND_TRACES_WITH_DETAILS then
          (case buffer asset of
             None \<Rightarrow> (trace, buffer)
           | Some traceVector \<Rightarrow>
               (let uniqueTraces = fold set_insert traceVector [];
                    combinedTrace = concat uniqueTraces
                in (setString combinedTrace (''/'' @ asset) trace, buffer(asset \<mapsto> []))))
        else if debugMode = OUTPUT_AND_TRACES then
          (setString (c_str condition) (''/'' @ c_str asset) trace, buffer)
        else (trace, buffer))"

definition getData_loop ::
  "DebugMode \<Rightarrow> (string \<times> string) list \<Rightarrow> Json \<times> (string \<rightharpoonup> string list)
     \<Rightarrow> Json \<times> (string \<rightharpoonup> string list)" where
  "getData_loop debugMode history tb = fold (getData_step debugMode) history tb"

text \<open>
  \<open>getData_trace\<close> is the document after the loop; \<open>getData\<close> returns the output string
  and the rendering of that document, and leaves the history empty. \<open>getData\<close>
  constructs no \<^verbatim>\<open>std::lock_guard\<close>.
\<close>

definition getData_trace :: "DebugMode \<Rightarrow> ('env, 'ev) RuntimePolicy \<Rightarrow> Json" where
  "getData_trace debugMode s =
     fst (getData_loop debugMode (m_history s) (Json_empty, m_traceBuffer s))"

definition getData ::
  "(Json \<Rightarrow> string) \<Rightarrow> DebugMode \<Rightarrow> ('env, 'ev) RuntimePolicy
     \<Rightarrow> (string \<times> string) \<times> ('env, 'ev) RuntimePolicy" where
  "getData members debugMode s =
     (case getData_loop debugMode (m_history s) (Json_empty, m_traceBuffer s) of
        (trace, buffer) \<Rightarrow>
          (let s1 = s\<lparr>m_traceBuffer := buffer\<rparr>;
               s2 = (if m_history s1 \<noteq> [] then s1\<lparr>m_history := []\<rparr> else s1)
           in ((m_output s2, prettyStr members trace), s2)))"

subsection \<open>Sample collaborators and instances\<close>

text \<open>
  Concrete collaborators for the closed theorems below: a builder that compiles every
  policy (the environment is the policy name), a builder that throws a
  \<^verbatim>\<open>std::runtime_error\<close>, a builder that throws an object of another type, a back end
  in which nothing throws, and one in which \<^verbatim>\<open>listenOnAllTrace\<close> throws a
  \<^verbatim>\<open>std::runtime_error\<close>.
\<close>

definition builder_ok :: "string Builder" where
  "builder_ok asset = Inr asset"

definition builder_fails :: "string Builder" where
  "builder_fails asset = Inl (StdException ''no such policy'')"

definition builder_throws_other :: "string Builder" where
  "builder_throws_other asset = Inl OtherException"

definition rx_ok :: "string rxbk" where
  "rx_ok = \<lparr>buildRxPipeline_throws = Map.empty, subscribe_throws = None,
            listenOnAllTrace_throws = None\<rparr>"

definition rx_listen_fails :: "string rxbk" where
  "rx_listen_fails = \<lparr>buildRxPipeline_throws = Map.empty, subscribe_throws = None,
                      listenOnAllTrace_throws = Some (StdException ''boom'')\<rparr>"

text \<open>A rendering of the members of a document, for the closed theorems.\<close>

definition sample_members :: "Json \<Rightarrow> string" where
  "sample_members j = concat (map (\<lambda>(path, v). path @ ''='' @ v @ '';'') j)"

definition policy_p :: "(string, string) RuntimePolicy" where
  "policy_p = newRuntimePolicy ''p''"

text \<open>
  Instances after deliveries to the trace subscriber: a condition line once among
  other lines of the same asset (one of them twice), the same condition line twice,
  and twice a line that has the condition text after a leading character.
\<close>

definition fired_once :: "(string, string) RuntimePolicy" where
  "fired_once =
     listenAllTrace_onNext ''[a] b''
       (listenAllTrace_onNext ''[a] z''
         (listenAllTrace_onNext ''[a] [condition]:p''
           (listenAllTrace_onNext ''[a] z'' policy_p)))"

definition fired_twice :: "(string, string) RuntimePolicy" where
  "fired_twice =
     listenAllTrace_onNext ''[a] [condition]:p''
       (listenAllTrace_onNext ''[a] [condition]:p'' policy_p)"

definition fired_inside_twice :: "(string, string) RuntimePolicy" where
  "fired_inside_twice =
     listenAllTrace_onNext ''x[a] [condition]:p''
       (listenAllTrace_onNext ''x[a] [condition]:p'' policy_p)"

section \<open>Properties\<close>

subsection \<open>The trace subscriber\<close>

lemma search_condition_at_start:
  "regex_search ''[a] [condition]:p'' opPatternTrace = Some [''[a] [condition]:p'', ''a'', ''p'']"
  by code_simp

lemma search_verbose_at_start:
  "regex_search ''[a] [condition]:p'' opPatternTraceVerbose
     = Some [''[a] [condition]:p'', ''a'', ''[condition]:p'']"
  by code_simp

lemma search_condition_inside:
  "regex_search ''x[a] [condition]:p'' opPatternTrace = Some [''[a] [condition]:p'', ''a'', ''p'']"
  by code_simp

lemma search_verbose_inside:
  "regex_search ''x[a] [condition]:p'' opPatternTraceVerbose = None"
  by code_simp

lemma no_condition_at_start:
  "run opPatternTrace (True, ''x[a] [condition]:p'', []) = []"
  by code_simp

lemma policy_p_fields:
  "m_asset policy_p = ''p''" "m_spController policy_p = None" "m_history policy_p = []"
  "m_traceBuffer policy_p = Map.empty" "m_output policy_p = []" "m_lockLog policy_p = []"
  by (simp_all add: policy_p_def newRuntimePolicy_def)

text \<open>
  The first match of each construct, for the inputs on which the two patterns
  succeed. A greedy \<^verbatim>\<open>+\<close> first takes the longest run of its atom.
\<close>

lemma first_match_Plus:
  assumes "step a x"
  shows "first_match (Plus a) (b, x # xs, g) = Some (False, dropWhile (step a) xs, g)"
proof -
  have "rev [1 ..< Suc (length (takeWhile (step a) (x # xs)))]
          = Suc (length (takeWhile (step a) xs)) # rev [1 ..< Suc (length (takeWhile (step a) xs))]"
    using assms by simp
  then show ?thesis
    using assms by (simp add: first_match_def dropWhile_eq_drop)
qed

lemma first_match_Group:
  "first_match r (b, s, g) = Some (b', s', g') \<Longrightarrow>
   first_match (Group r) (b, s, g) = Some (b', s', g' @ [take (length s - length s') s])"
  by (auto simp: first_match_def split: list.splits)

lemma first_match_Cat:
  "first_match r1 c = Some c1 \<Longrightarrow> first_match r2 c1 = Some c2 \<Longrightarrow>
   first_match (Cat r1 r2) c = Some c2"
  by (auto simp: first_match_def split: list.splits)

lemma first_match_Group_Plus:
  assumes "step a x"
  shows "first_match (Group (Plus a)) (b, x # xs, g)
           = Some (False, dropWhile (step a) xs, g @ [x # takeWhile (step a) xs])"
proof -
  have "length (takeWhile (step a) xs) + length (dropWhile (step a) xs) = length xs"
    by (metis length_append takeWhile_dropWhile_id)
  then have "length (x # xs) - length (dropWhile (step a) xs) = Suc (length (takeWhile (step a) xs))"
    by simp
  then have "take (length (x # xs) - length (dropWhile (step a) xs)) (x # xs)
               = x # take (length (takeWhile (step a) xs)) xs"
    by simp
  also have "take (length (takeWhile (step a) xs)) xs = takeWhile (step a) xs"
    by (rule takeWhile_eq_take [symmetric])
  finally have "take (length (x # xs) - length (dropWhile (step a) xs)) (x # xs)
                  = x # takeWhile (step a) xs" .
  with first_match_Group [OF first_match_Plus [OF assms, of b xs g]] show ?thesis
    by simp
qed

lemma regex_search_from_first:
  "first_match r (b, s, []) = Some (b', s', g) \<Longrightarrow>
   regex_search_from r b s = Some (take (length s - length s') s # g)"
  by (cases s) simp_all


lemma first_match_asset_group:
  assumes "a \<noteq> []" and "CHR '']'' \<notin> set a"
  shows "first_match (Group (Plus (NotChar CHR '']''))) (b, a @ CHR '']'' # r, g)
           = Some (False, CHR '']'' # r, g @ [a])"
proof -
  obtain x a' where a: "a = x # a'"
    using assms(1) by (cases a) auto
  have x: "step (NotChar CHR '']'') x" and a': "\<forall>y\<in>set a'. step (NotChar CHR '']'') y"
    using assms(2) a by auto
  have t: "takeWhile (step (NotChar CHR '']'')) (a' @ CHR '']'' # r) = a'"
    using a' by (simp add: takeWhile_append2)
  have d: "dropWhile (step (NotChar CHR '']'')) (a' @ CHR '']'' # r) = CHR '']'' # r"
    using a' by (simp add: dropWhile_append2)
  from first_match_Group_Plus [OF x, of b "a' @ CHR '']'' # r" g] show ?thesis
    unfolding t d a by simp
qed

lemma first_match_payload_group:
  assumes "tail \<noteq> []" and "\<not> is_line_terminator (hd tail)"
  shows "first_match (Group (Plus AnyChar)) (b, tail, g)
           = Some (False, dropWhile (\<lambda>c. \<not> is_line_terminator c) tail,
                   g @ [takeWhile (\<lambda>c. \<not> is_line_terminator c) tail])"
proof -
  obtain t ts where tail: "tail = t # ts"
    using assms(1) by (cases tail) auto
  have s: "step AnyChar = (\<lambda>c. \<not> is_line_terminator c)"
    by (rule ext) simp
  have t: "step AnyChar t"
    using assms(2) tail by simp
  from first_match_Group_Plus [OF t, of b ts g] show ?thesis
    using t unfolding tail s by simp
qed

lemma condition_first_match:
  assumes "a \<noteq> []" and "CHR '']'' \<notin> set a"
      and "tail \<noteq> []" and "\<not> is_line_terminator (hd tail)"
  shows "first_match opPatternTrace (b, ''['' @ a @ ''] [condition]:'' @ tail, [])
           = Some (False, dropWhile (\<lambda>c. \<not> is_line_terminator c) tail,
                   [a, takeWhile (\<lambda>c. \<not> is_line_terminator c) tail])"
proof -
  let ?r7 = "'':'' @ tail"
  let ?r6 = "'']'' @ ?r7"
  let ?r5 = "''condition'' @ ?r6"
  let ?r4 = "''['' @ ?r5"
  let ?r3 = "'' '' @ ?r4"
  have s1: "first_match (Atom (Lit CHR ''['')) (b, ''['' @ a @ ''] [condition]:'' @ tail, [])
              = Some (False, a @ CHR '']'' # ?r3, [])"
    by (simp add: first_match_def)
  have s2: "first_match (Group (Plus (NotChar CHR '']''))) (False, a @ CHR '']'' # ?r3, [])
              = Some (False, CHR '']'' # ?r3, [a])"
    using first_match_asset_group [OF assms(1,2), of False ?r3 "[]"] by simp
  have s3: "first_match (Atom (Lit CHR '']'')) (False, CHR '']'' # ?r3, [a]) = Some (False, ?r3, [a])"
    by (simp add: first_match_def)
  have s4: "first_match (Str '' '') (False, ?r3, [a]) = Some (False, ?r4, [a])"
    by (simp add: first_match_def)
  have s5: "first_match (Atom (Lit CHR ''['')) (False, ?r4, [a]) = Some (False, ?r5, [a])"
    by (simp add: first_match_def)
  have s6: "first_match (Str ''condition'') (False, ?r5, [a]) = Some (False, ?r6, [a])"
    by (simp add: first_match_def)
  have s7: "first_match (Atom (Lit CHR '']'')) (False, ?r6, [a]) = Some (False, ?r7, [a])"
    by (simp add: first_match_def)
  have s8: "first_match (Str '':'') (False, ?r7, [a]) = Some (False, tail, [a])"
    by (simp add: first_match_def)
  have s9: "first_match (Group (Plus AnyChar)) (False, tail, [a])
              = Some (False, dropWhile (\<lambda>c. \<not> is_line_terminator c) tail,
                      [a, takeWhile (\<lambda>c. \<not> is_line_terminator c) tail])"
    using first_match_payload_group [OF assms(3,4), of False "[a]"] by simp
  show ?thesis
    unfolding opPatternTrace_def
    by (intro first_match_Cat [OF s1] first_match_Cat [OF s2] first_match_Cat [OF s3]
        first_match_Cat [OF s4] first_match_Cat [OF s5] first_match_Cat [OF s6]
        first_match_Cat [OF s7] first_match_Cat [OF s8] s9)
qed

lemma verbose_first_match:
  assumes "a \<noteq> []" and "CHR '']'' \<notin> set a"
      and "tail \<noteq> []" and "\<not> is_line_terminator (hd tail)"
  shows "first_match opPatternTraceVerbose (True, ''['' @ a @ ''] '' @ tail, [])
           = Some (False, dropWhile (\<lambda>c. \<not> is_line_terminator c) tail,
                   [a, takeWhile (\<lambda>c. \<not> is_line_terminator c) tail])"
proof -
  let ?r3 = "'' '' @ tail"
  have s0: "first_match Bol (True, ''['' @ a @ ''] '' @ tail, [])
              = Some (True, ''['' @ a @ ''] '' @ tail, [])"
    by (simp add: first_match_def)
  have s1: "first_match (Atom (Lit CHR ''['')) (True, ''['' @ a @ ''] '' @ tail, [])
              = Some (False, a @ CHR '']'' # ?r3, [])"
    by (simp add: first_match_def)
  have s2: "first_match (Group (Plus (NotChar CHR '']''))) (False, a @ CHR '']'' # ?r3, [])
              = Some (False, CHR '']'' # ?r3, [a])"
    using first_match_asset_group [OF assms(1,2), of False ?r3 "[]"] by simp
  have s3: "first_match (Atom (Lit CHR '']'')) (False, CHR '']'' # ?r3, [a]) = Some (False, ?r3, [a])"
    by (simp add: first_match_def)
  have s4: "first_match (Str '' '') (False, ?r3, [a]) = Some (False, tail, [a])"
    by (simp add: first_match_def)
  have s5: "first_match (Group (Plus AnyChar)) (False, tail, [a])
              = Some (False, dropWhile (\<lambda>c. \<not> is_line_terminator c) tail,
                      [a, takeWhile (\<lambda>c. \<not> is_line_terminator c) tail])"
    using first_match_payload_group [OF assms(3,4), of False "[a]"] by simp
  show ?thesis
    unfolding opPatternTraceVerbose_def
    by (intro first_match_Cat [OF s0] first_match_Cat [OF s1] first_match_Cat [OF s2]
        first_match_Cat [OF s3] first_match_Cat [OF s4] s5)
qed

lemma listenAllTrace_onNext_both:
  assumes "regex_search trace opPatternTrace = Some [m0, a, p]"
      and "regex_search trace opPatternTraceVerbose = Some [m1, k, g2]"
  shows "m_history (listenAllTrace_onNext trace s) = m_history s @ [(a, p)]
         \<and> m_traceBuffer (listenAllTrace_onNext trace s)
           = (m_traceBuffer s)(k \<mapsto> (case m_traceBuffer s k of None \<Rightarrow> [] | Some v \<Rightarrow> v)
                                       @ [trace])"
  by (simp add: listenAllTrace_onNext_def assms sub_str_def lock_guard_def unlock_guard_def Let_def)

text \<open>A line with the condition shape at its start gives both records.\<close>

lemma listenAllTrace_onNext_condition_line:
  assumes "a \<noteq> []" and "CHR '']'' \<notin> set a"
      and "tail \<noteq> []" and "\<not> is_line_terminator (hd tail)"
  shows "m_history (listenAllTrace_onNext (''['' @ a @ ''] [condition]:'' @ tail) s)
           = m_history s @ [(a, takeWhile (\<lambda>c. \<not> is_line_terminator c) tail)]
         \<and> m_traceBuffer (listenAllTrace_onNext (''['' @ a @ ''] [condition]:'' @ tail) s)
           = (m_traceBuffer s)(a \<mapsto> (case m_traceBuffer s a of None \<Rightarrow> [] | Some v \<Rightarrow> v)
                                       @ [''['' @ a @ ''] [condition]:'' @ tail])"
proof -
  let ?line = "''['' @ a @ ''] [condition]:'' @ tail"
  let ?p = "takeWhile (\<lambda>c. \<not> is_line_terminator c) tail"
  obtain m0 where c: "regex_search ?line opPatternTrace = Some [m0, a, ?p]"
    using regex_search_from_first [OF condition_first_match [OF assms, of True]]
    by (simp add: regex_search_def)
  have v': "''[condition]:'' @ tail \<noteq> []" "\<not> is_line_terminator (hd (''[condition]:'' @ tail))"
    by (simp_all add: is_line_terminator_def)
  have l: "''['' @ a @ ''] '' @ ''[condition]:'' @ tail = ?line" by simp
  obtain m1 g2 where v: "regex_search ?line opPatternTraceVerbose = Some [m1, a, g2]"
    using regex_search_from_first [OF verbose_first_match [OF assms(1,2) v']]
    unfolding l by (simp add: regex_search_def)
  from c v show ?thesis
    by (rule listenAllTrace_onNext_both)
qed

lemma listenAllTrace_onNext_neither:
  "regex_search trace opPatternTrace = None \<Longrightarrow>
   regex_search trace opPatternTraceVerbose = None \<Longrightarrow>
   m_history (listenAllTrace_onNext trace s) = m_history s
   \<and> m_traceBuffer (listenAllTrace_onNext trace s) = m_traceBuffer s"
  by (simp add: listenAllTrace_onNext_def lock_guard_def unlock_guard_def)

text \<open>
  C1. A Condition record (an entry of \<open>m_history\<close>) is claimed to be produced only for a
  line that matches the condition pattern at its start. The condition pattern of the
  subscriber has no \<^verbatim>\<open>^\<close>: the line \<^verbatim>\<open>x[a] [condition]:p\<close> has no match of the pattern
  at its start, and the subscriber appends the record \<open>(a, p)\<close> for it.
\<close>

theorem listenAllTrace_condition_inside_line:
  "run opPatternTrace (True, ''x[a] [condition]:p'', []) = []
   \<and> m_history (listenAllTrace_onNext ''x[a] [condition]:p'' policy_p) = [(''a'', ''p'')]"
  by (simp add: no_condition_at_start listenAllTrace_onNext_def search_condition_inside
      search_verbose_inside sub_str_def lock_guard_def unlock_guard_def policy_p_fields)

text \<open>
  C2. A line is claimed to produce both a Condition and a Verbose record when it
  matches the condition pattern, and nothing when it matches neither pattern. For the
  line \<^verbatim>\<open>x[a] [condition]:p\<close> the search for the condition pattern succeeds and the
  search for the verbose pattern, which starts with \<^verbatim>\<open>^\<close>, fails: the subscriber
  appends a Condition record and no Verbose record.
\<close>

theorem listenAllTrace_condition_without_verbose:
  "regex_search ''x[a] [condition]:p'' opPatternTrace = Some [''[a] [condition]:p'', ''a'', ''p'']
   \<and> regex_search ''x[a] [condition]:p'' opPatternTraceVerbose = None
   \<and> m_history (listenAllTrace_onNext ''x[a] [condition]:p'' policy_p) = [(''a'', ''p'')]
   \<and> m_traceBuffer (listenAllTrace_onNext ''x[a] [condition]:p'' policy_p) = Map.empty"
  by (simp add: listenAllTrace_onNext_def search_condition_inside
      search_verbose_inside sub_str_def lock_guard_def unlock_guard_def policy_p_fields)

subsection \<open>Build and ingest\<close>

lemma build_ok_policy_p:
  "build rx_ok builder_ok policy_p
     = (Returned None,
        policy_p\<lparr>m_environment := Some ''p'',
                 m_spController := Some \<lparr>pipeline = ''p'', outputSubscribed = True,
                                         allTraceSubscribed = True, ingested = []\<rparr>\<rparr>)"
  by (simp add: build_def rx_ok_def builder_ok_def policy_p_fields newController_def
      subscribeToOutput_def listenAllTrace_def)

text \<open>
  A \<^verbatim>\<open>std::exception\<close> of the builder or of the construction of the controller: \<open>build\<close>
  returns the error \<^verbatim>\<open>Error building policy [<id>]: <stack>\<close>, the instance has no
  controller, and a following \<open>processEvent\<close> fails with the not-built error.
\<close>

lemma build_exception_leaves_unbuilt:
  assumes unbuilt: "m_spController s = None"
      and raised: "builder (m_asset s) = Inl (StdException stack)
                   \<or> (\<exists>env. builder (m_asset s) = Inr env
                             \<and> buildRxPipeline_throws rx env = Some (StdException stack))"
  shows "fst (build rx builder s)
           = Returned (Some (Error (''Error building policy ['' @ m_asset s @ '']: '' @ stack)))
         \<and> m_spController (snd (build rx builder s)) = None
         \<and> fst (processEvent event (snd (build rx builder s)))
           = Some (Error (''Policy '' @ [CHR 0x27] @ m_asset s @ [CHR 0x27] @ '' is not built''))"
  using assms
  by (auto simp add: build_def build_catch_def processEvent_def build_error_msg_def
      not_built_msg_def Let_def)

lemma build_exception_leaves_unbuilt_example:
  "fst (build rx_ok builder_fails policy_p)
       = Returned (Some (Error ''Error building policy [p]: no such policy''))
   \<and> m_spController (snd (build rx_ok builder_fails policy_p)) = None
   \<and> fst (processEvent ''e'' (snd (build rx_ok builder_fails policy_p)))
       = Some (Error (''Policy '' @ [CHR 0x27] @ ''p'' @ [CHR 0x27] @ '' is not built''))"
  by (simp add: build_def build_catch_def builder_fails_def policy_p_fields processEvent_def
      build_error_msg_def not_built_msg_def)

text \<open>
  A \<^verbatim>\<open>std::exception\<close> of one of the two registrations is reported with the same
  message, and the controller that was stored before the registration stays in
  \<open>m_spController\<close>.
\<close>

lemma build_wiring_exception:
  assumes "m_spController s = None" and "builder (m_asset s) = Inr env"
      and "buildRxPipeline_throws rx env = None"
      and "subscribe_throws rx = Some (StdException stack)
           \<or> (subscribe_throws rx = None
               \<and> listenOnAllTrace_throws rx = Some (StdException stack))"
  shows "fst (build rx builder s)
           = Returned (Some (Error (''Error building policy ['' @ m_asset s @ '']: '' @ stack)))
         \<and> m_spController (snd (build rx builder s)) \<noteq> None"
  using assms
  by (auto simp add: build_def build_catch_def build_error_msg_def Let_def
      subscribeToOutput_def listenAllTrace_def)

text \<open>
  An exception that is not a \<^verbatim>\<open>std::exception\<close> is not caught: \<open>build\<close> does not return.
\<close>

lemma build_other_exception_escapes:
  "fst (build rx_ok builder_throws_other policy_p) = Escaped OtherException
   \<and> m_spController (snd (build rx_ok builder_throws_other policy_p)) = None"
  by (simp add: build_def build_catch_def builder_throws_other_def policy_p_fields)

text \<open>
  C3. After an exception during \<open>build\<close>, the registrations of the subscribers
  included, the instance is claimed to be left without controller and without
  subscribers, so that \<open>processEvent\<close> still fails. On a new instance, with a builder
  and a construction of the controller that succeed and a \<^verbatim>\<open>listenOnAllTrace\<close> that
  throws a \<^verbatim>\<open>std::runtime_error\<close>, \<open>build\<close> returns the error of the claim, and the
  instance keeps the controller with the output subscriber registered:
  \<open>processEvent\<close> then succeeds, and another \<open>build\<close> answers that the policy is already
  built.
\<close>

theorem build_listen_exception_keeps_controller:
  "fst (build rx_listen_fails builder_ok policy_p)
     = Returned (Some (Error ''Error building policy [p]: boom''))
   \<and> m_spController (snd (build rx_listen_fails builder_ok policy_p))
       = Some \<lparr>pipeline = ''p'', outputSubscribed = True, allTraceSubscribed = False,
               ingested = []\<rparr>
   \<and> fst (processEvent ''e'' (snd (build rx_listen_fails builder_ok policy_p))) = None
   \<and> fst (build rx_ok builder_ok (snd (build rx_listen_fails builder_ok policy_p)))
       = Returned (Some (Error (''Policy '' @ [CHR 0x27] @ ''p'' @ [CHR 0x27]
                                 @ '' is already built'')))"
  by (simp add: build_def build_catch_def rx_listen_fails_def builder_ok_def policy_p_fields
      newController_def subscribeToOutput_def listenAllTrace_def processEvent_def
      build_error_msg_def already_built_msg_def)

text \<open>
  C4, as claimed: the second \<open>build\<close> returns exactly \<^verbatim>\<open>policy '<id>' is already built\<close>.
  The message of the code starts with a capital letter.
\<close>

theorem build_twice_message_counterexample:
  "fst (build rx_ok builder_ok (snd (build rx_ok builder_ok policy_p)))
     = Returned (Some (Error (''Policy '' @ [CHR 0x27] @ ''p'' @ [CHR 0x27]
                               @ '' is already built'')))
   \<and> fst (build rx_ok builder_ok (snd (build rx_ok builder_ok policy_p)))
     \<noteq> Returned (Some (Error (''policy '' @ [CHR 0x27] @ ''p'' @ [CHR 0x27]
                                  @ '' is already built'')))"
  unfolding build_ok_policy_p
  by (simp add: build_def already_built_msg_def policy_p_fields)

text \<open>
  C4, amended: on an instance that has a controller, \<open>build\<close> returns the error
  \<^verbatim>\<open>Policy '<id>' is already built\<close> and leaves the instance as it was, with the
  controller of the first build; a following \<open>processEvent\<close> succeeds and hands the
  event to that controller.
\<close>

theorem build_twice_already_built:
  assumes "m_spController s = Some c"
  shows "build rx builder s
           = (Returned (Some (Error (''Policy '' @ [CHR 0x27] @ m_asset s @ [CHR 0x27]
                                       @ '' is already built''))), s)
         \<and> processEvent event (snd (build rx builder s))
           = (None, s\<lparr>m_spController := Some (c\<lparr>ingested := ingested c @ [event]\<rparr>)\<rparr>)"
  using assms by (simp add: build_def processEvent_def already_built_msg_def)

theorem build_twice_already_built_witness:
  "m_spController (snd (build rx_ok builder_ok policy_p))
     = Some \<lparr>pipeline = ''p'', outputSubscribed = True, allTraceSubscribed = True,
             ingested = []\<rparr>
   \<and> fst (build rx_ok builder_ok (snd (build rx_ok builder_ok policy_p)))
     = Returned (Some (Error (''Policy '' @ [CHR 0x27] @ ''p'' @ [CHR 0x27]
                               @ '' is already built'')))
   \<and> fst (processEvent ''e''
            (snd (build rx_ok builder_ok (snd (build rx_ok builder_ok policy_p))))) = None"
proof -
  have h: "m_spController (snd (build rx_ok builder_ok policy_p))
     = Some \<lparr>pipeline = ''p'', outputSubscribed = True, allTraceSubscribed = True,
             ingested = []\<rparr>"
    by (simp add: build_ok_policy_p)
  have a: "m_asset (snd (build rx_ok builder_ok policy_p)) = ''p''"
    unfolding build_ok_policy_p by (simp add: policy_p_fields)
  note t = build_twice_already_built [OF h, of rx_ok builder_ok "''e''"]
  from t [THEN conjunct1]
  have b: "fst (build rx_ok builder_ok (snd (build rx_ok builder_ok policy_p)))
     = Returned (Some (Error (''Policy '' @ [CHR 0x27] @ ''p'' @ [CHR 0x27]
                               @ '' is already built'')))"
    unfolding a by simp
  from t [THEN conjunct2]
  have p: "fst (processEvent ''e''
            (snd (build rx_ok builder_ok (snd (build rx_ok builder_ok policy_p))))) = None"
    by simp
  from h b p show ?thesis by blast
qed

text \<open>
  C5, as claimed: \<open>processEvent\<close> on an instance that was not built returns exactly
  \<^verbatim>\<open>policy '<id>' is not built\<close>. The message of the code starts with a capital letter.
\<close>

theorem processEvent_unbuilt_message_counterexample:
  "fst (processEvent ''e'' policy_p)
     = Some (Error (''Policy '' @ [CHR 0x27] @ ''p'' @ [CHR 0x27] @ '' is not built''))
   \<and> fst (processEvent ''e'' policy_p)
     \<noteq> Some (Error (''policy '' @ [CHR 0x27] @ ''p'' @ [CHR 0x27] @ '' is not built''))"
  by (simp add: processEvent_def not_built_msg_def policy_p_fields)

text \<open>
  C5, amended: on an instance without a controller, \<open>processEvent\<close> returns the error
  \<^verbatim>\<open>Policy '<id>' is not built\<close> for every event and leaves the instance as it was:
  no controller is made, and no controller receives the event.
\<close>

theorem processEvent_unbuilt:
  assumes "m_spController s = None"
  shows "processEvent event s
           = (Some (Error (''Policy '' @ [CHR 0x27] @ m_asset s @ [CHR 0x27]
                             @ '' is not built'')), s)"
  using assms by (simp add: processEvent_def not_built_msg_def)

theorem processEvent_unbuilt_witness:
  "m_spController policy_p = None
   \<and> processEvent ''e'' policy_p
       = (Some (Error (''Policy '' @ [CHR 0x27] @ ''p'' @ [CHR 0x27] @ '' is not built'')),
          policy_p)"
proof -
  have h: "m_spController policy_p = None"
    by (simp add: policy_p_fields)
  have a: "m_asset policy_p = ''p''"
    by (simp add: policy_p_fields)
  show ?thesis
    using h a processEvent_unbuilt [OF h, of "''e''"] by simp
qed

subsection \<open>Rendering\<close>

lemma getString_setString:
  "getString (setString v p j) q = (if q = p then Some v else getString j q)"
  by (induction j) (auto simp: getString_def)

lemma set_set_insert: "set (set_insert x ys) = insert x (set ys)"
  by (induction ys) auto

lemma sorted_set_insert: "sorted ys \<Longrightarrow> sorted (set_insert x ys)"
  by (induction ys) (auto simp: set_set_insert)

lemma distinct_set_insert: "sorted ys \<Longrightarrow> distinct ys \<Longrightarrow> distinct (set_insert x ys)"
  by (induction ys) (auto simp: set_set_insert)

lemma fold_set_insert_props:
  "sorted acc \<Longrightarrow> distinct acc \<Longrightarrow>
   sorted (fold set_insert xs acc) \<and> distinct (fold set_insert xs acc)
   \<and> set (fold set_insert xs acc) = set xs \<union> set acc"
  by (induction xs arbitrary: acc)
     (auto simp: sorted_set_insert distinct_set_insert set_set_insert)

text \<open>
  The elements of \<open>uniqueTraces\<close>, in the order of the iteration, are the distinct lines
  of the bucket in increasing lexicographic order.
\<close>

lemma uniqueTraces_sorted_list:
  "fold set_insert xs [] = sorted_list_of_set (set xs)"
proof -
  have "sorted (fold set_insert xs []) \<and> distinct (fold set_insert xs [])
        \<and> set (fold set_insert xs []) = set xs"
    using fold_set_insert_props [of "[]" xs] by simp
  then show ?thesis
    by (metis sorted_list_of_set.idem_if_sorted_distinct)
qed

lemma detailed_step_same:
  "buffer a = Some l \<Longrightarrow>
   getData_step OUTPUT_AND_TRACES_WITH_DETAILS (a, c) (trace, buffer)
     = (setString (concat (sorted_list_of_set (set l))) (''/'' @ a) trace, buffer(a \<mapsto> []))"
  by (simp add: getData_step_def uniqueTraces_sorted_list)

lemma detailed_step_other:
  "a' \<noteq> a \<Longrightarrow>
   getString (fst (getData_step OUTPUT_AND_TRACES_WITH_DETAILS (a', c) (trace, buffer))) (''/'' @ a)
     = getString trace (''/'' @ a)
   \<and> snd (getData_step OUTPUT_AND_TRACES_WITH_DETAILS (a', c) (trace, buffer)) a = buffer a"
  by (simp add: getData_step_def getString_setString split: option.splits)

lemma getData_loop_Nil: "getData_loop debugMode [] tb = tb"
  by (simp add: getData_loop_def)

lemma getData_loop_Cons:
  "getData_loop debugMode (e # h) tb = getData_loop debugMode h (getData_step debugMode e tb)"
  by (simp add: getData_loop_def)

text \<open>
  What the loop of \<open>getData\<close> in the detailed mode does for an asset that has a bucket,
  by the number of entries of the asset in the history: none, the path and the bucket
  are as before; one, the path has the concatenation and the bucket is empty; more,
  the later entries find the empty bucket and the path has the empty string.
\<close>

lemma detailed_loop_asset:
  "buffer a = Some l \<Longrightarrow>
   getString (fst (getData_loop OUTPUT_AND_TRACES_WITH_DETAILS h (trace, buffer))) (''/'' @ a)
     = (if count_list (map fst h) a = 0 then getString trace (''/'' @ a)
        else if count_list (map fst h) a = 1 then Some (concat (sorted_list_of_set (set l)))
        else Some [])
   \<and> snd (getData_loop OUTPUT_AND_TRACES_WITH_DETAILS h (trace, buffer)) a
     = (if count_list (map fst h) a = 0 then Some l else Some [])"
proof (induction h arbitrary: trace buffer l)
  case Nil
  then show ?case by (simp add: getData_loop_Nil)
next
  case (Cons e h)
  obtain a' c where e: "e = (a', c)" by (cases e)
  obtain t' b' where st: "getData_step OUTPUT_AND_TRACES_WITH_DETAILS e (trace, buffer) = (t', b')"
    by (cases "getData_step OUTPUT_AND_TRACES_WITH_DETAILS e (trace, buffer)")
  show ?case
  proof (cases "a' = a")
    case True
    from detailed_step_same [where buffer = buffer and a = a and l = l and c = c and trace = trace,
        OF Cons.prems] st e True
    have t': "getString t' (''/'' @ a) = Some (concat (sorted_list_of_set (set l)))"
      and b': "b' a = Some []"
      by (auto simp: getString_setString)
    have n: "count_list (map fst (e # h)) a = Suc (count_list (map fst h) a)"
      using e True by simp
    from Cons.IH [where buffer = b' and l = "[]" and trace = t', OF b'] t' show ?thesis
      unfolding getData_loop_Cons st n by simp
  next
    case False
    from detailed_step_other [OF False, of c trace buffer] st e
    have t': "getString t' (''/'' @ a) = getString trace (''/'' @ a)" and "b' a = buffer a"
      by simp_all
    with Cons.prems have b': "b' a = Some l" by simp
    have n: "count_list (map fst (e # h)) a = count_list (map fst h) a"
      using e False by simp
    from Cons.IH [where buffer = b' and l = l and trace = t', OF b'] t' show ?thesis
      unfolding getData_loop_Cons st n by simp
  qed
qed

lemma getData_state:
  "snd (getData members debugMode s)
     = s\<lparr>m_traceBuffer := snd (getData_loop debugMode (m_history s) (Json_empty, m_traceBuffer s)),
         m_history := []\<rparr>"
  by (simp add: getData_def Let_def split: prod.splits)

lemma getData_result:
  "fst (getData members debugMode s) = (m_output s, prettyStr members (getData_trace debugMode s))"
  by (simp add: getData_def getData_trace_def Let_def split: prod.splits)

lemma getData_trace_no_history: "m_history s = [] \<Longrightarrow> getData_trace debugMode s = Json_empty"
  by (simp add: getData_trace_def getData_loop_Nil)

lemma search_condition_z: "regex_search ''[a] z'' opPatternTrace = None"
  by code_simp

lemma search_verbose_z:
  "regex_search ''[a] z'' opPatternTraceVerbose = Some [''[a] z'', ''a'', ''z'']"
  by code_simp

lemma search_condition_b: "regex_search ''[a] b'' opPatternTrace = None"
  by code_simp

lemma search_verbose_b:
  "regex_search ''[a] b'' opPatternTraceVerbose = Some [''[a] b'', ''a'', ''b'']"
  by code_simp

lemma fired_once_state:
  "m_history fired_once = [(''a'', ''p'')]"
  "m_traceBuffer fired_once ''a''
     = Some [''[a] z'', ''[a] [condition]:p'', ''[a] z'', ''[a] b'']"
  by (simp_all add: fired_once_def listenAllTrace_onNext_def search_condition_at_start
      search_verbose_at_start search_condition_z search_verbose_z search_condition_b
      search_verbose_b sub_str_def lock_guard_def unlock_guard_def policy_p_fields Let_def)

lemma fired_twice_state:
  "m_history fired_twice = [(''a'', ''p''), (''a'', ''p'')]"
  "m_traceBuffer fired_twice ''a'' = Some [''[a] [condition]:p'', ''[a] [condition]:p'']"
  by (simp_all add: fired_twice_def listenAllTrace_onNext_def search_condition_at_start
      search_verbose_at_start sub_str_def lock_guard_def unlock_guard_def policy_p_fields Let_def)

lemma fired_inside_twice_state:
  "m_history fired_inside_twice = [(''a'', ''p''), (''a'', ''p'')]"
  "m_traceBuffer fired_inside_twice ''a'' = None"
  by (simp_all add: fired_inside_twice_def listenAllTrace_onNext_def search_condition_inside
      search_verbose_inside sub_str_def lock_guard_def unlock_guard_def policy_p_fields)

lemma sorted_fired_once:
  "sorted_list_of_set (set [''[a] z'', ''[a] [condition]:p'', ''[a] z'', ''[a] b''])
     = [''[a] [condition]:p'', ''[a] b'', ''[a] z'']"
  by code_simp

lemma sorted_fired_twice:
  "sorted_list_of_set (set [''[a] [condition]:p'', ''[a] [condition]:p''])
     = [''[a] [condition]:p'']"
  by code_simp

text \<open>
  C6. For every instance and every debug mode, \<open>OUTPUT_ONLY\<close> included, the history is
  empty when \<open>getData\<close> returns.
\<close>

theorem getData_clears_history:
  "m_history (snd (getData members debugMode s)) = []"
  by (simp add: getData_def Let_def split: prod.splits)

text \<open>
  C7, as claimed: in the detailed mode, every asset of the history that has a bucket
  is rendered as the concatenation of the distinct lines of its bucket. After the same
  condition line was delivered twice, the asset is in the history twice and its bucket
  holds the line twice; the path of the asset is rendered as the empty string, not as
  the line.
\<close>

theorem getData_details_repeated_counterexample:
  "m_traceBuffer fired_twice ''a'' = Some [''[a] [condition]:p'', ''[a] [condition]:p'']
   \<and> map fst (m_history fired_twice) = [''a'', ''a'']
   \<and> getString (getData_trace OUTPUT_AND_TRACES_WITH_DETAILS fired_twice) ''/a'' = Some []
   \<and> getString (getData_trace OUTPUT_AND_TRACES_WITH_DETAILS fired_twice) ''/a''
       \<noteq> Some (concat (sorted_list_of_set (set [''[a] [condition]:p'', ''[a] [condition]:p''])))"
  unfolding sorted_fired_twice
  by (simp add: fired_twice_state getData_trace_def getData_loop_def getData_step_def
      Json_empty_def getString_def)

text \<open>
  C7, amended: in the detailed mode, for every asset that has a bucket and occurs
  exactly once in the history, the document has at the path \<^verbatim>\<open>"/" + asset\<close> the
  concatenation of the distinct lines of the bucket in increasing lexicographic order,
  and the bucket of the asset is empty after \<open>getData\<close>.
\<close>

theorem getData_details_single_occurrence:
  assumes "m_traceBuffer s a = Some l" and "count_list (map fst (m_history s)) a = 1"
  shows "getString (getData_trace OUTPUT_AND_TRACES_WITH_DETAILS s) (''/'' @ a)
           = Some (concat (sorted_list_of_set (set l)))
         \<and> m_traceBuffer (snd (getData members OUTPUT_AND_TRACES_WITH_DETAILS s)) a = Some []"
  using detailed_loop_asset [where buffer = "m_traceBuffer s" and a = a and l = l
      and h = "m_history s" and trace = Json_empty, OF assms(1)] assms(2)
  unfolding getData_state getData_trace_def by simp

theorem getData_details_single_occurrence_witness:
  "m_traceBuffer fired_once ''a''
     = Some [''[a] z'', ''[a] [condition]:p'', ''[a] z'', ''[a] b'']
   \<and> count_list (map fst (m_history fired_once)) ''a'' = 1
   \<and> getString (getData_trace OUTPUT_AND_TRACES_WITH_DETAILS fired_once) ''/a''
       = Some ''[a] [condition]:p[a] b[a] z''
   \<and> m_traceBuffer (snd (getData sample_members OUTPUT_AND_TRACES_WITH_DETAILS fired_once)) ''a''
       = Some []"
proof -
  have b: "m_traceBuffer fired_once ''a''
     = Some [''[a] z'', ''[a] [condition]:p'', ''[a] z'', ''[a] b'']"
    by (simp add: fired_once_state)
  have n: "count_list (map fst (m_history fired_once)) ''a'' = 1"
    by (simp add: fired_once_state)
  note t = getData_details_single_occurrence [where s = fired_once and a = "''a''"
      and members = sample_members, OF b n]
  from t have "getString (getData_trace OUTPUT_AND_TRACES_WITH_DETAILS fired_once) ''/a''
       = Some ''[a] [condition]:p[a] b[a] z''
     \<and> m_traceBuffer (snd (getData sample_members OUTPUT_AND_TRACES_WITH_DETAILS fired_once)) ''a''
       = Some []"
    unfolding sorted_fired_once by simp
  with b n show ?thesis by blast
qed

text \<open>
  C8. Two calls of \<open>getData\<close> in the detailed mode, the second on the instance that the
  first call left: both return the same output string, and the second returns the
  rendering \<^verbatim>\<open>{}\<close> of the empty document.
\<close>

theorem getData_details_twice:
  "fst (fst (getData members OUTPUT_AND_TRACES_WITH_DETAILS
               (snd (getData members OUTPUT_AND_TRACES_WITH_DETAILS s))))
     = fst (fst (getData members OUTPUT_AND_TRACES_WITH_DETAILS s))
   \<and> snd (fst (getData members OUTPUT_AND_TRACES_WITH_DETAILS
                 (snd (getData members OUTPUT_AND_TRACES_WITH_DETAILS s)))) = ''{}''"
proof -
  let ?s' = "snd (getData members OUTPUT_AND_TRACES_WITH_DETAILS s)"
  have h: "m_history ?s' = []" and o: "m_output ?s' = m_output s"
    by (simp_all add: getData_state)
  have "getData_trace OUTPUT_AND_TRACES_WITH_DETAILS ?s' = Json_empty"
    using h by (rule getData_trace_no_history)
  then show ?thesis
    using o by (simp add: getData_result prettyStr_def Json_empty_def)
qed

text \<open>
  The two callbacks hold their mutex for the whole call.
\<close>

lemma listenAllTrace_onNext_locks:
  "m_lockLog (listenAllTrace_onNext trace s)
     = m_lockLog s @ [Acquire TracerMutex, Release TracerMutex]"
  by (simp add: listenAllTrace_onNext_def lock_guard_def unlock_guard_def Let_def
      split: option.splits)

lemma subscribeToOutput_onNext_locks:
  "m_lockLog (subscribeToOutput_onNext prettyPayload event s)
     = m_lockLog s @ [Acquire OutputMutex, Release OutputMutex]"
  by (simp add: subscribeToOutput_onNext_def lock_guard_def unlock_guard_def Let_def)

text \<open>
  C9. \<open>getData\<close> is claimed to acquire the output mutex and then the trace mutex. It
  acquires neither: the log of lock events is after \<open>getData\<close> what it was before, for
  every instance and every mode.
\<close>

theorem getData_acquires_no_mutex:
  "m_lockLog (snd (getData members debugMode s)) = m_lockLog s"
  by (simp add: getData_def Let_def split: prod.splits)

text \<open>
  C10, as claimed: in the detailed mode, an asset that is in the history twice or more
  is rendered as the empty string. After two deliveries of a line that has the
  condition text after a leading character, the asset is twice in the history and has
  no bucket; the loop skips it, and the document has nothing at the path of the asset.
\<close>

theorem getData_details_no_bucket_counterexample:
  "map fst (m_history fired_inside_twice) = [''a'', ''a'']
   \<and> m_traceBuffer fired_inside_twice ''a'' = None
   \<and> getString (getData_trace OUTPUT_AND_TRACES_WITH_DETAILS fired_inside_twice) ''/a'' = None
   \<and> getString (getData_trace OUTPUT_AND_TRACES_WITH_DETAILS fired_inside_twice) ''/a''
       \<noteq> Some []"
  by (simp add: fired_inside_twice_state getData_trace_def getData_loop_def getData_step_def
      Json_empty_def getString_def)

text \<open>
  C10, amended: in the detailed mode, for every asset that has a bucket and occurs
  twice or more in the history, the document has the empty string at the path
  \<^verbatim>\<open>"/" + asset\<close>, and the bucket of the asset is empty after \<open>getData\<close>.
\<close>

theorem getData_details_repeated_asset:
  assumes "m_traceBuffer s a = Some l" and "2 \<le> count_list (map fst (m_history s)) a"
  shows "getString (getData_trace OUTPUT_AND_TRACES_WITH_DETAILS s) (''/'' @ a) = Some []
         \<and> m_traceBuffer (snd (getData members OUTPUT_AND_TRACES_WITH_DETAILS s)) a = Some []"
  using detailed_loop_asset [where buffer = "m_traceBuffer s" and a = a and l = l
      and h = "m_history s" and trace = Json_empty, OF assms(1)] assms(2)
  unfolding getData_state getData_trace_def by simp

theorem getData_details_repeated_asset_witness:
  "m_traceBuffer fired_twice ''a'' = Some [''[a] [condition]:p'', ''[a] [condition]:p'']
   \<and> 2 \<le> count_list (map fst (m_history fired_twice)) ''a''
   \<and> getString (getData_trace OUTPUT_AND_TRACES_WITH_DETAILS fired_twice) ''/a'' = Some []
   \<and> m_traceBuffer (snd (getData sample_members OUTPUT_AND_TRACES_WITH_DETAILS fired_twice)) ''a''
       = Some []"
proof -
  have b: "m_traceBuffer fired_twice ''a''
     = Some [''[a] [condition]:p'', ''[a] [condition]:p'']"
    by (simp add: fired_twice_state)
  have n: "2 \<le> count_list (map fst (m_history fired_twice)) ''a''"
    by (simp add: fired_twice_state)
  note t = getData_details_repeated_asset [where s = fired_twice and a = "''a''"
      and members = sample_members, OF b n]
  from t have "getString (getData_trace OUTPUT_AND_TRACES_WITH_DETAILS fired_twice) ''/a''
       = Some []
     \<and> m_traceBuffer (snd (getData sample_members OUTPUT_AND_TRACES_WITH_DETAILS fired_twice)) ''a''
       = Some []"
    by simp
  with b n show ?thesis by blast
qed

end
